theory Spec2Isabelle
  imports Main
begin

section \<open>Data model of CommonConnectionPool.cpp\<close>

text \<open>
  The pool is one object with the members the source reads and writes: the connection
  parameters and tuning knobs filled in by \<^verbatim>\<open>loadConfigFile\<close>, the queue of idle
  connections \<^verbatim>\<open>_connectionQue\<close> and the counter \<^verbatim>\<open>_connectionCnt\<close>. The C++
  \<^verbatim>\<open>int\<close> members are modelled as \<^typ>\<open>int\<close>: every value stored in them comes
  from \<^verbatim>\<open>std::stoi\<close>, which refuses anything outside the 32-bit range, and the counter
  only moves between 0 and the larger of \<^verbatim>\<open>_initSize\<close> and \<^verbatim>\<open>_maxSize\<close>, so the
  only arithmetic that can leave the range is the product \<^verbatim>\<open>_maxIdleTime * 1000\<close> of the
  reaper, which is modelled with its overflow check.
\<close>

text \<open>
  Modelled from the spec: the \<^verbatim>\<open>Connection\<close> class (Connection.h is not part of the
  sources). The spec gives it \<^verbatim>\<open>connect(...) -> bool\<close>, \<^verbatim>\<open>refreshAliveTime()\<close>, an
  idle-since timestamp and an idle duration in milliseconds. A connection records the
  address it was allocated at, the result of its \<^verbatim>\<open>connect\<close> call and the clock
  reading of its last refresh.
\<close>

record connection =
  cid :: nat
  connected :: bool
  alivetime :: int

definition refreshAliveTime :: "int \<Rightarrow> connection \<Rightarrow> connection" where
  "refreshAliveTime now c = c\<lparr>alivetime := now\<rparr>"

definition getAliveeTime :: "int \<Rightarrow> connection \<Rightarrow> int" where
  "getAliveeTime now c = now - alivetime c"

record pool =
  ip :: string
  port :: int
  username :: string
  password :: string
  dbname :: string
  initSize :: int
  maxSize :: int
  maxIdleTime :: int
  connectionTimeout :: int
  connectionQue :: "connection list"
  connectionCnt :: int

text \<open>
  The pool is a function-local static object: it is zero-initialised before its
  constructor runs, so a member the configuration file does not set is 0 or empty.
\<close>

definition pool0 :: pool where
  "pool0 = \<lparr>ip = [], port = 0, username = [], password = [], dbname = [],
     initSize = 0, maxSize = 0, maxIdleTime = 0, connectionTimeout = 0,
     connectionQue = [], connectionCnt = 0\<rparr>"

text \<open>
  What an operation does beyond changing the pool is returned as a list of events, in
  program order: a broadcast on the condition variable, a line written by the
  \<^verbatim>\<open>LOG\<close> macro, the destruction of a connection.
\<close>

datatype log_msg = ConfigFileMissing | AcquireTimedOut

datatype event = NotifyAll | Log log_msg | Delete connection

section \<open>loadConfigFile\<close>

datatype exn = InvalidArgument | OutOfRange

definition isspace :: "char \<Rightarrow> bool" where
  "isspace c = (c = CHR '' '' \<or> c = CHR 0x09 \<or> c = CHR 0x0A \<or> c = CHR 0x0B
     \<or> c = CHR 0x0C \<or> c = CHR 0x0D)"

definition isdigit :: "char \<Rightarrow> bool" where
  "isdigit c = (c \<in> set ''0123456789'')"

definition digit_val :: "char \<Rightarrow> int" where
  "digit_val c = int (of_char c) - 48"

definition digits_val :: "string \<Rightarrow> int" where
  "digits_val ds = foldl (\<lambda>a c. 10 * a + digit_val c) 0 ds"

definition INT_MIN :: int where "INT_MIN = - 2147483648"
definition INT_MAX :: int where "INT_MAX = 2147483647"

text \<open>
  \<^verbatim>\<open>std::stoi(value)\<close> in base 10: leading white space is skipped, one sign is
  accepted, the longest run of digits is converted and the rest of the string is ignored.
  No digit at all throws \<^verbatim>\<open>std::invalid_argument\<close>; a value outside \<^verbatim>\<open>int\<close>
  throws \<^verbatim>\<open>std::out_of_range\<close>.
\<close>

definition stoi :: "string \<Rightarrow> exn + int" where
  "stoi s =
     (let s1 = dropWhile isspace s;
          neg = (case s1 of [] \<Rightarrow> False | c # _ \<Rightarrow> c = CHR ''-'');
          s2 = (case s1 of [] \<Rightarrow> [] | c # r \<Rightarrow> if c = CHR ''-'' \<or> c = CHR ''+'' then r else s1);
          ds = takeWhile isdigit s2;
          v = (if neg then - digits_val ds else digits_val ds)
      in if ds = [] then Inl InvalidArgument
         else if v < INT_MIN \<or> INT_MAX < v then Inl OutOfRange
         else Inr v)"

text \<open>
  The file is read with \<^verbatim>\<open>std::getline(file, line)\<close>: the content is cut at every
  newline, and a last piece that is empty is not a line.
\<close>

function getlines :: "string \<Rightarrow> string list" where
  "getlines s =
     (if s = [] then []
      else takeWhile (\<lambda>c. c \<noteq> CHR 0x0A) s
           # getlines (drop 1 (dropWhile (\<lambda>c. c \<noteq> CHR 0x0A) s)))"
  by pat_completeness auto
termination
proof (relation "measure length")
  show "wf (measure (length :: string \<Rightarrow> nat))" by simp
next
  fix s :: string
  assume "s \<noteq> []"
  moreover have "length (dropWhile (\<lambda>c. c \<noteq> CHR 0x0A) s) \<le> length s"
    by (rule length_dropWhile_le)
  ultimately show "(drop 1 (dropWhile (\<lambda>c. c \<noteq> CHR 0x0A) s), s) \<in> measure length"
    by (cases s) auto
qed

text \<open>
  \<^verbatim>\<open>std::getline(iss, key, '=') && std::getline(iss, value)\<close> on one line. The first
  call fails on an empty line; it reads up to the first \<^verbatim>\<open>=\<close> and consumes it, or
  reaches the end of the line, after which the second call fails. The second call
  fails too when nothing follows the separator.
\<close>

definition split_line :: "string \<Rightarrow> (string \<times> string) option" where
  "split_line line =
     (if line = [] then None
      else (case dropWhile (\<lambda>c. c \<noteq> CHR ''='') line of
              [] \<Rightarrow> None
            | _ # rest \<Rightarrow>
                (if rest = [] then None
                 else Some (takeWhile (\<lambda>c. c \<noteq> CHR ''='') line,
                            takeWhile (\<lambda>c. c \<noteq> CHR 0x0A) rest))))"

definition set_int :: "(int \<Rightarrow> pool) \<Rightarrow> string \<Rightarrow> exn + pool" where
  "set_int upd v = (case stoi v of Inl e \<Rightarrow> Inl e | Inr n \<Rightarrow> Inr (upd n))"

text \<open>The table \<^verbatim>\<open>configMap\<close>: the setter of a recognised key, nothing for any other.\<close>

definition configMap :: "string \<Rightarrow> string \<Rightarrow> pool \<Rightarrow> exn + pool" where
  "configMap key v p =
     (if key = ''ip'' then Inr (p\<lparr>ip := v\<rparr>)
      else if key = ''port'' then set_int (\<lambda>n. p\<lparr>port := n\<rparr>) v
      else if key = ''username'' then Inr (p\<lparr>username := v\<rparr>)
      else if key = ''password'' then Inr (p\<lparr>password := v\<rparr>)
      else if key = ''dbname'' then Inr (p\<lparr>dbname := v\<rparr>)
      else if key = ''initSize'' then set_int (\<lambda>n. p\<lparr>initSize := n\<rparr>) v
      else if key = ''maxSize'' then set_int (\<lambda>n. p\<lparr>maxSize := n\<rparr>) v
      else if key = ''maxIdleTime'' then set_int (\<lambda>n. p\<lparr>maxIdleTime := n\<rparr>) v
      else if key = ''connectionTimeOut'' then set_int (\<lambda>n. p\<lparr>connectionTimeout := n\<rparr>) v
      else Inr p)"

fun load_lines :: "string list \<Rightarrow> pool \<Rightarrow> exn + pool" where
  "load_lines [] p = Inr p"
| "load_lines (line # ls) p =
     (case split_line line of
        None \<Rightarrow> load_lines ls p
      | Some (key, v) \<Rightarrow>
          (case configMap key v p of
             Inl e \<Rightarrow> Inl e
           | Inr p' \<Rightarrow> load_lines ls p'))"

text \<open>
  \<^verbatim>\<open>loadConfigFile\<close>: the file is \<open>None\<close> when it cannot be opened. The result is
  the returned flag, the pool and the events; an exception of \<^verbatim>\<open>std::stoi\<close> is not
  caught and leaves the function.
\<close>

definition loadConfigFile :: "string option \<Rightarrow> pool \<Rightarrow> exn + (bool \<times> pool \<times> event list)" where
  "loadConfigFile file p =
     (case file of
        None \<Rightarrow> Inr (False, p, [Log ConfigFileMissing])
      | Some content \<Rightarrow>
          (case load_lines (getlines content) p of
             Inl e \<Rightarrow> Inl e
           | Inr p' \<Rightarrow> Inr (True, p', [])))"

section \<open>The constructor\<close>

text \<open>
  \<^verbatim>\<open>new Connection()\<close>, \<^verbatim>\<open>p->connect(...)\<close>, \<^verbatim>\<open>p->refreshAliveTime()\<close>: the three
  statements the constructor and the producer share. The result of \<^verbatim>\<open>connect\<close>
  is given by the environment (\<open>ok\<close>); the source does not look at it.
\<close>

definition new_connection :: "int \<Rightarrow> nat \<Rightarrow> bool \<Rightarrow> connection" where
  "new_connection now a ok =
     refreshAliveTime now \<lparr>cid = a, connected = ok, alivetime = 0\<rparr>"

definition push_new :: "int \<Rightarrow> nat \<Rightarrow> bool \<Rightarrow> pool \<Rightarrow> pool" where
  "push_new now a ok p =
     p\<lparr>connectionQue := connectionQue p @ [new_connection now a ok],
       connectionCnt := connectionCnt p + 1\<rparr>"

text \<open>
  The loop \<^verbatim>\<open>for (int i = 0; i < _initSize; ++i)\<close>. The \<open>i\<close>-th connection gets the
  address \<open>i\<close> and the connect result \<open>ok i\<close>.
\<close>

function ctor_loop :: "int \<Rightarrow> (nat \<Rightarrow> bool) \<Rightarrow> int \<Rightarrow> pool \<Rightarrow> pool" where
  "ctor_loop now ok i p =
     (if i < initSize p then ctor_loop now ok (i + 1) (push_new now (nat i) (ok (nat i)) p)
      else p)"
  by pat_completeness auto
termination
  by (relation "measure (\<lambda>(now, ok, i, p). nat (initSize p - i))")
     (auto simp: push_new_def)

text \<open>
  The constructor: the pool after it, and whether the producer and the reaper threads
  were started. An exception of \<^verbatim>\<open>loadConfigFile\<close> leaves the constructor.
\<close>

definition ConnectionPool_ctor ::
  "string option \<Rightarrow> int \<Rightarrow> (nat \<Rightarrow> bool) \<Rightarrow> exn + (pool \<times> bool \<times> event list)" where
  "ConnectionPool_ctor file now ok =
     (case loadConfigFile file pool0 of
        Inl e \<Rightarrow> Inl e
      | Inr (loaded, p, evs) \<Rightarrow>
          (if \<not> loaded then Inr (p, False, evs)
           else Inr (ctor_loop now ok 0 p, True, evs)))"

section \<open>The producer\<close>

text \<open>
  One iteration of \<^verbatim>\<open>produceConnectionTask\<close>, run under the lock. While the queue is
  not empty the thread stays in \<^verbatim>\<open>cv.wait\<close>: the iteration has no result (\<open>None\<close>).
\<close>

definition produceConnectionTask ::
  "int \<Rightarrow> nat \<Rightarrow> bool \<Rightarrow> pool \<Rightarrow> (pool \<times> event list) option" where
  "produceConnectionTask now a ok p =
     (if connectionQue p \<noteq> [] then None
      else if connectionCnt p < maxSize p then Some (push_new now a ok p, [NotifyAll])
      else Some (p, [NotifyAll]))"

section \<open>The reaper\<close>

text \<open>
  What the C++ standard leaves undefined in a scan: \<^verbatim>\<open>front()\<close> of an empty
  \<^verbatim>\<open>std::queue\<close>, and a signed product outside \<^verbatim>\<open>int\<close>.
\<close>

datatype fault = FrontOfEmptyQueue | SignedOverflow

definition idle_threshold :: "int \<Rightarrow> int option" where
  "idle_threshold m =
     (if INT_MIN \<le> m * 1000 \<and> m * 1000 \<le> INT_MAX then Some (m * 1000) else None)"

text \<open>
  The loop \<^verbatim>\<open>while (_connectionCnt > _initSize)\<close> of one scan, on the queue and the
  counter: the queue and the counter it leaves, the connections it deleted in order, and
  the undefined operation it ran into, if any (the scan is followed up to there).
\<close>

fun scan_loop ::
  "int \<Rightarrow> int \<Rightarrow> int \<Rightarrow> connection list \<Rightarrow> int
     \<Rightarrow> connection list \<times> int \<times> connection list \<times> fault option" where
  "scan_loop now isz mit [] cnt =
     (if cnt > isz then ([], cnt, [], Some FrontOfEmptyQueue) else ([], cnt, [], None))"
| "scan_loop now isz mit (c # q) cnt =
     (if cnt > isz then
        (case idle_threshold mit of
           None \<Rightarrow> (c # q, cnt, [], Some SignedOverflow)
         | Some thr \<Rightarrow>
             (if getAliveeTime now c \<ge> thr then
                (case scan_loop now isz mit q (cnt - 1) of
                   (q', cnt', ds, f) \<Rightarrow> (q', cnt', c # ds, f))
              else (c # q, cnt, [], None)))
      else (c # q, cnt, [], None))"

definition scannerConnectionTask ::
  "int \<Rightarrow> pool \<Rightarrow> pool \<times> event list \<times> fault option" where
  "scannerConnectionTask now p =
     (case scan_loop now (initSize p) (maxIdleTime p) (connectionQue p) (connectionCnt p) of
        (q', cnt', ds, f) \<Rightarrow>
          (p\<lparr>connectionQue := q', connectionCnt := cnt'\<rparr>, map Delete ds, f))"

section \<open>getConnection and the lease handle\<close>

text \<open>
  A call of \<^verbatim>\<open>cv.wait_for(lock, chrono::milliseconds(budget))\<close> releases the lock and
  sleeps. What happens meanwhile is the environment's: a broadcast (or a spurious
  wake-up) may arrive after some milliseconds, and the other threads change the pool
  while the lock is free. The call returns \<^verbatim>\<open>no_timeout\<close> when the wake-up comes before
  the budget is used up, and \<^verbatim>\<open>timeout\<close> after the whole budget otherwise.
\<close>

datatype cv_status = no_timeout | timeout

record wake =
  notified :: "int option"
  others :: "pool \<Rightarrow> pool"

definition wait_for :: "int \<Rightarrow> wake \<Rightarrow> cv_status \<times> int" where
  "wait_for budget w =
     (case notified w of
        Some d \<Rightarrow> if d < budget then (no_timeout, max 0 d) else (timeout, max 0 budget)
      | None \<Rightarrow> (timeout, max 0 budget))"

datatype waited = Available pool int | TimedOut pool int | StillWaiting

text \<open>
  The loop \<^verbatim>\<open>while (_connectionQue.empty())\<close> of \<^verbatim>\<open>getConnection\<close>, along the wake-ups
  \<open>ws\<close> the environment provides, with the milliseconds waited so far. Every pass
  calls \<^verbatim>\<open>wait_for\<close> with \<^verbatim>\<open>_connectionTimeout\<close>. When the wake-ups run out while the
  queue is empty the caller is still blocked.
\<close>

fun getConnection_wait :: "pool \<Rightarrow> wake list \<Rightarrow> int \<Rightarrow> waited" where
  "getConnection_wait p [] t =
     (if connectionQue p \<noteq> [] then Available p t else StillWaiting)"
| "getConnection_wait p (w # ws) t =
     (if connectionQue p \<noteq> [] then Available p t
      else (case wait_for (connectionTimeout p) w of
              (st, d) \<Rightarrow>
                (if st = timeout \<and> connectionQue (others w p) = []
                 then TimedOut (others w p) (t + d)
                 else getConnection_wait (others w p) ws (t + d))))"

text \<open>
  \<^verbatim>\<open>getConnection\<close>: the handle returned (\<open>None\<close> is the null pointer), the pool, the
  events and the milliseconds spent waiting; no result while the caller is blocked.
\<close>

definition getConnection ::
  "pool \<Rightarrow> wake list \<Rightarrow> (connection option \<times> pool \<times> event list \<times> int) option" where
  "getConnection p ws =
     (case getConnection_wait p ws 0 of
        StillWaiting \<Rightarrow> None
      | TimedOut p' t \<Rightarrow> Some (None, p', [Log AcquireTimedOut], t)
      | Available p' t \<Rightarrow>
          (case connectionQue p' of
             [] \<Rightarrow> None
           | c # q \<Rightarrow> Some (Some c, p'\<lparr>connectionQue := q\<rparr>, [NotifyAll], t)))"

text \<open>
  The deleter of the \<^verbatim>\<open>shared_ptr\<close>, run when the last reference to the handle is
  dropped: under the lock, \<^verbatim>\<open>pcon->refreshAliveTime()\<close> and
  \<^verbatim>\<open>_connectionQue.push(pcon)\<close>.
\<close>

definition deleter :: "int \<Rightarrow> connection \<Rightarrow> pool \<Rightarrow> pool \<times> event list" where
  "deleter now pcon p =
     (p\<lparr>connectionQue := connectionQue p @ [refreshAliveTime now pcon]\<rparr>, [])"

section \<open>The running pool\<close>

text \<open>
  The threads of the process take turns under the one mutex, so a run of the pool is a
  sequence of critical sections. The state of a run is the pool, the connections held by
  outstanding handles, the clock (in milliseconds, read once per critical section) and
  the next unused address.
\<close>

record sys =
  pl :: pool
  leased :: "connection list"
  clock :: int
  next_addr :: nat

datatype action =
    Produce bool
  | Acquire
  | AcquireTimeout
  | Release nat
  | Scan
  | Tick nat

definition quiet :: wake where
  "quiet = \<lparr>notified = None, others = (\<lambda>p. p)\<rparr>"

text \<open>
  \<open>Produce ok\<close> is a producer iteration whose \<^verbatim>\<open>connect\<close> returns \<open>ok\<close>;
  \<open>Acquire\<close> a call of \<^verbatim>\<open>getConnection\<close> that finds a connection; \<open>AcquireTimeout\<close>
  one that waits without being woken; \<open>Release k\<close> drops the \<open>k\<close>-th outstanding handle;
  \<open>Scan\<close> is a scan of the reaper; \<open>Tick d\<close> lets \<open>d\<close> milliseconds pass. A step has no
  result when the thread cannot take it in this state (it is blocked) or when it runs
  into an undefined operation.
\<close>

fun step :: "action \<Rightarrow> sys \<Rightarrow> sys option" where
  "step (Produce ok) s =
     (case produceConnectionTask (clock s) (next_addr s) ok (pl s) of
        None \<Rightarrow> None
      | Some (p', evs) \<Rightarrow> Some (s\<lparr>pl := p', next_addr := Suc (next_addr s)\<rparr>))"
| "step Acquire s =
     (case getConnection (pl s) [] of
        Some (Some c, p', evs, t) \<Rightarrow> Some (s\<lparr>pl := p', leased := leased s @ [c]\<rparr>)
      | _ \<Rightarrow> None)"
| "step AcquireTimeout s =
     (case getConnection (pl s) [quiet] of
        Some (None, p', evs, t) \<Rightarrow> Some (s\<lparr>pl := p', clock := clock s + t\<rparr>)
      | _ \<Rightarrow> None)"
| "step (Release k) s =
     (if k < length (leased s) then
        (case deleter (clock s) (leased s ! k) (pl s) of
           (p', evs) \<Rightarrow>
             Some (s\<lparr>pl := p', leased := take k (leased s) @ drop (Suc k) (leased s)\<rparr>))
      else None)"
| "step Scan s =
     (case scannerConnectionTask (clock s) (pl s) of
        (p', evs, None) \<Rightarrow> Some (s\<lparr>pl := p'\<rparr>)
      | (p', evs, Some f) \<Rightarrow> None)"
| "step (Tick d) s = Some (s\<lparr>clock := clock s + int d\<rparr>)"

fun run :: "action list \<Rightarrow> sys \<Rightarrow> sys option" where
  "run [] s = Some s"
| "run (a # as) s = (case step a s of None \<Rightarrow> None | Some s' \<Rightarrow> run as s')"

text \<open>
  The state in which the constructor leaves the process when the configuration was
  loaded and the two threads were started.
\<close>

definition boot :: "string option \<Rightarrow> int \<Rightarrow> (nat \<Rightarrow> bool) \<Rightarrow> sys option" where
  "boot file now ok =
     (case ConnectionPool_ctor file now ok of
        Inr (p, True, evs) \<Rightarrow>
          Some \<lparr>pl = p, leased = [], clock = now, next_addr = nat (connectionCnt p)\<rparr>
      | _ \<Rightarrow> None)"

definition started :: "string option \<Rightarrow> int \<Rightarrow> (nat \<Rightarrow> bool) \<Rightarrow> action list \<Rightarrow> sys option" where
  "started file now ok acts =
     (case boot file now ok of None \<Rightarrow> None | Some s0 \<Rightarrow> run acts s0)"

definition nl :: string where
  "nl = [CHR 0x0A]"

text \<open>
  The configuration of the spec's scenarios: \<^verbatim>\<open>initSize=2\<close>, \<^verbatim>\<open>maxSize=4\<close>, an idle
  threshold of one second and an acquisition timeout of 100 milliseconds.
\<close>

definition cfgA :: string where
  "cfgA = ''initSize=2'' @ nl @ ''maxSize=4'' @ nl @ ''maxIdleTime=1'' @ nl
     @ ''connectionTimeOut=100'' @ nl"

text \<open>
  A pool for trying the reaper: three idle connections of which the second was
  refreshed half a second ago, one more than \<^verbatim>\<open>initSize\<close> allows for two evictions.
\<close>

definition pool3 :: pool where
  "pool3 = pool0\<lparr>initSize := 1, maxSize := 4, maxIdleTime := 1, connectionCnt := 3,
     connectionQue := [\<lparr>cid = 0, connected = True, alivetime = 0\<rparr>,
                       \<lparr>cid = 1, connected = True, alivetime = 4500\<rparr>,
                       \<lparr>cid = 2, connected = True, alivetime = 0\<rparr>]\<rparr>"


text \<open>
  Two states of the scenario runs: after three handles were taken and returned and the
  reaper evicted one connection, and with one handle outstanding.
\<close>

definition sys_after :: sys where
  "sys_after =
     \<lparr>pl = pool0\<lparr>initSize := 2, maxSize := 4, maxIdleTime := 1, connectionTimeout := 100,
             connectionQue := [\<lparr>cid = 0, connected = True, alivetime = 50\<rparr>,
                               \<lparr>cid = 2, connected = True, alivetime = 50\<rparr>],
             connectionCnt := 2\<rparr>,
      leased = [], clock = 1050, next_addr = 3\<rparr>"

definition sys_leased :: sys where
  "sys_leased =
     \<lparr>pl = pool0\<lparr>initSize := 2, maxSize := 4, maxIdleTime := 1, connectionTimeout := 100,
             connectionQue := [\<lparr>cid = 1, connected = True, alivetime = 0\<rparr>],
             connectionCnt := 2\<rparr>,
      leased = [\<lparr>cid = 0, connected = True, alivetime = 0\<rparr>], clock = 50, next_addr = 2\<rparr>"

text \<open>
  Two more situations for the reaper: a configuration with \<^verbatim>\<open>initSize=0\<close> whose only
  connection gets leased, and a pool with an idle threshold of thirty days whose only
  connection was returned one second before the scan.
\<close>

definition cfgB :: string where
  "cfgB = ''initSize=0'' @ nl @ ''maxSize=1'' @ nl @ ''maxIdleTime=1'' @ nl"

definition pool_month :: pool where
  "pool_month = pool0\<lparr>initSize := 0, maxSize := 1, maxIdleTime := 2592000, connectionCnt := 1,
     connectionQue := [\<lparr>cid = 0, connected = True, alivetime = 2591999000\<rparr>]\<rparr>"

section \<open>Lemmas about the constructor\<close>

lemma configMap_frame:
  "configMap key v p = Inr p' \<Longrightarrow>
     connectionQue p' = connectionQue p \<and> connectionCnt p' = connectionCnt p"
  unfolding configMap_def set_int_def
  by (auto split: if_splits sum.splits)

lemma load_lines_frame:
  "load_lines ls p = Inr p' \<Longrightarrow>
     connectionQue p' = connectionQue p \<and> connectionCnt p' = connectionCnt p"
proof (induction ls arbitrary: p)
  case Nil
  then show ?case by simp
next
  case (Cons l ls)
  show ?case
  proof (cases "split_line l")
    case None
    with Cons show ?thesis by simp
  next
    case (Some kv)
    obtain key v where kv: "kv = (key, v)" by (cases kv)
    from Cons.prems Some kv obtain q where q: "configMap key v p = Inr q" and r: "load_lines ls q = Inr p'"
      by (auto split: sum.splits)
    from Cons.IH [OF r] configMap_frame [OF q] show ?thesis by simp
  qed
qed

lemma loadConfigFile_frame:
  "loadConfigFile file p = Inr (b, p', evs) \<Longrightarrow>
     connectionQue p' = connectionQue p \<and> connectionCnt p' = connectionCnt p"
  unfolding loadConfigFile_def
  by (auto split: option.splits sum.splits dest: load_lines_frame)

declare ctor_loop.simps [simp del]

lemma ctor_loop_config:
  "initSize (ctor_loop now ok i p) = initSize p \<and> maxSize (ctor_loop now ok i p) = maxSize p
   \<and> maxIdleTime (ctor_loop now ok i p) = maxIdleTime p
   \<and> connectionTimeout (ctor_loop now ok i p) = connectionTimeout p"
proof (induction now ok i p rule: ctor_loop.induct)
  case (1 now ok i p)
  show ?case
  proof (cases "i < initSize p")
    case True
    with 1 show ?thesis by (subst (1 2 3 4) ctor_loop.simps) (simp add: push_new_def)
  next
    case False
    then show ?thesis by (subst (1 2 3 4) ctor_loop.simps) simp
  qed
qed

lemma ctor_loop_cnt:
  "connectionCnt (ctor_loop now ok i p) = connectionCnt p + max 0 (initSize p - i)"
proof (induction now ok i p rule: ctor_loop.induct)
  case (1 now ok i p)
  show ?case
  proof (cases "i < initSize p")
    case True
    with 1 show ?thesis by (subst ctor_loop.simps) (simp add: push_new_def)
  next
    case False
    then show ?thesis by (subst ctor_loop.simps) simp
  qed
qed

lemma ctor_loop_alive:
  "\<forall>c\<in>set (connectionQue p). alivetime c \<le> now \<Longrightarrow>
   \<forall>c\<in>set (connectionQue (ctor_loop now ok i p)). alivetime c \<le> now"
proof (induction now ok i p rule: ctor_loop.induct)
  case (1 now ok i p)
  show ?case
  proof (cases "i < initSize p")
    case True
    have "\<forall>c\<in>set (connectionQue (push_new now (nat i) (ok (nat i)) p)). alivetime c \<le> now"
      using "1.prems" by (simp add: push_new_def new_connection_def refreshAliveTime_def)
    from "1.IH" [OF True this] True show ?thesis by (subst ctor_loop.simps) simp
  next
    case False
    with "1.prems" show ?thesis by (subst ctor_loop.simps) simp
  qed
qed

lemma ctor_loop_que:
  "0 \<le> i \<Longrightarrow>
   connectionQue (ctor_loop now ok i p)
     = connectionQue p
       @ map (\<lambda>j. \<lparr>cid = j, connected = ok j, alivetime = now\<rparr>) [nat i..<nat (initSize p)]"
proof (induction now ok i p rule: ctor_loop.induct)
  case (1 now ok i p)
  show ?case
  proof (cases "i < initSize p")
    case True
    from "1.prems" have nn: "0 \<le> i + 1" by simp
    from "1.prems" True have lt: "nat i < nat (initSize p)" by simp
    from "1.prems" have suc: "nat (i + 1) = Suc (nat i)" by simp
    have cfg: "initSize (push_new now (nat i) (ok (nat i)) p) = initSize p"
      by (simp add: push_new_def)
    have q: "connectionQue (push_new now (nat i) (ok (nat i)) p)
               = connectionQue p @ [\<lparr>cid = nat i, connected = ok (nat i), alivetime = now\<rparr>]"
      by (simp add: push_new_def new_connection_def refreshAliveTime_def)
    from "1.IH" [OF True nn] True
    have "connectionQue (ctor_loop now ok i p)
            = connectionQue (push_new now (nat i) (ok (nat i)) p)
              @ map (\<lambda>j. \<lparr>cid = j, connected = ok j, alivetime = now\<rparr>)
                  [Suc (nat i)..<nat (initSize p)]"
      by (subst ctor_loop.simps) (simp add: cfg suc)
    with q lt show ?thesis by (simp add: upt_conv_Cons)
  next
    case False
    then have "[nat i..<nat (initSize p)] = []" by simp
    with False show ?thesis by (subst ctor_loop.simps) simp
  qed
qed

section \<open>The producer iteration\<close>

text \<open>
  Claim C4. A producer iteration has a result exactly when it finds the idle queue
  empty (otherwise the thread stays in its wait). On an empty queue it always has one:
  if the counter is strictly below \<^verbatim>\<open>maxSize\<close> the pool afterwards differs from the
  pool before only in that the queue holds exactly one new connection, connected and
  stamped with the current clock, and the counter is one higher; otherwise the pool is
  unchanged. In both cases its only event is one broadcast on the condition variable,
  after the work.
\<close>

theorem producer_iteration:
  "(connectionQue p \<noteq> [] \<longrightarrow> produceConnectionTask now a ok p = None) \<and>
   (connectionQue p = [] \<longrightarrow>
      (\<exists>q. produceConnectionTask now a ok p = Some (q, [NotifyAll]) \<and>
         (connectionCnt p < maxSize p \<longrightarrow>
            q = p\<lparr>connectionQue := [\<lparr>cid = a, connected = ok, alivetime = now\<rparr>],
                  connectionCnt := connectionCnt p + 1\<rparr>) \<and>
         (\<not> connectionCnt p < maxSize p \<longrightarrow> q = p))) \<and>
   (produceConnectionTask now a ok p = Some (p', evs) \<longrightarrow>
      connectionQue p = [] \<and> evs = [NotifyAll] \<and>
      p' = p\<lparr>connectionQue := connectionQue p', connectionCnt := connectionCnt p'\<rparr> \<and>
      (connectionCnt p < maxSize p \<longrightarrow>
         connectionQue p' = [\<lparr>cid = a, connected = ok, alivetime = now\<rparr>] \<and>
         connectionCnt p' = connectionCnt p + 1) \<and>
      (\<not> connectionCnt p < maxSize p \<longrightarrow> p' = p))"
  unfolding produceConnectionTask_def push_new_def new_connection_def refreshAliveTime_def
  by (auto split: if_splits)

theorem producer_iteration_witness:
  "produceConnectionTask 7 3 True (pool0\<lparr>maxSize := 4, connectionCnt := 3\<rparr>)
     = Some (pool0\<lparr>maxSize := 4, connectionCnt := 3\<rparr>
               \<lparr>connectionQue := [\<lparr>cid = 3, connected = True, alivetime = 7\<rparr>],
                connectionCnt := 4\<rparr>, [NotifyAll])
   \<and> produceConnectionTask 7 3 True (pool0\<lparr>maxSize := 4, connectionCnt := 4\<rparr>)
     = Some (pool0\<lparr>maxSize := 4, connectionCnt := 4\<rparr>, [NotifyAll])
   \<and> produceConnectionTask 7 3 True
        (pool0\<lparr>maxSize := 4, connectionCnt := 3,
           connectionQue := [\<lparr>cid = 0, connected = True, alivetime = 0\<rparr>]\<rparr>) = None"
proof -
  let ?p = "pool0\<lparr>maxSize := 4, connectionCnt := 3\<rparr>"
  let ?c = "pool0\<lparr>maxSize := 4, connectionCnt := 4\<rparr>"
  let ?r = "pool0\<lparr>maxSize := 4, connectionCnt := 3,
           connectionQue := [\<lparr>cid = 0, connected = True, alivetime = 0\<rparr>]\<rparr>"
  have ep: "connectionQue ?p = []" and lt: "connectionCnt ?p < maxSize ?p"
    by (simp_all add: pool0_def)
  have ec: "connectionQue ?c = []" and full: "\<not> connectionCnt ?c < maxSize ?c"
    by (simp_all add: pool0_def)
  have ne: "connectionQue ?r \<noteq> []" by simp
  note t = producer_iteration [where now = 7 and a = 3 and ok = True and p' = pool0 and evs = "[]"]
  from t [where p = ?p, THEN conjunct2, THEN conjunct1] ep lt
  have 1: "produceConnectionTask 7 3 True ?p
     = Some (?p\<lparr>connectionQue := [\<lparr>cid = 3, connected = True, alivetime = 7\<rparr>],
                connectionCnt := connectionCnt ?p + 1\<rparr>, [NotifyAll])" by blast
  from t [where p = ?c, THEN conjunct2, THEN conjunct1] ec
  obtain q where a: "produceConnectionTask 7 3 True ?c = Some (q, [NotifyAll])"
    and b: "\<not> connectionCnt ?c < maxSize ?c \<longrightarrow> q = ?c" by blast
  from b full have q: "q = ?c" by (rule mp)
  have 2: "produceConnectionTask 7 3 True ?c = Some (?c, [NotifyAll])"
    using a unfolding q .
  from t [where p = ?r, THEN conjunct1] ne
  have 3: "produceConnectionTask 7 3 True ?r = None" by blast
  have "connectionCnt ?p + 1 = 4" by simp
  with 1 2 3 show ?thesis by simp
qed

text \<open>
  Claim C9 says that a failed \<^verbatim>\<open>connect\<close> is not counted. The source never looks at
  the result of \<^verbatim>\<open>connect\<close>: with a failing \<^verbatim>\<open>connect\<close> the producer takes the
  counter from 0 to 1, and the constructor with \<^verbatim>\<open>initSize=1\<close> leaves the counter at 1
  with one unconnected connection in the queue.
\<close>

theorem connect_failure_counted:
  "produceConnectionTask 0 0 False (pool0\<lparr>maxSize := 1\<rparr>)
     = Some (pool0\<lparr>maxSize := 1, connectionCnt := 1,
               connectionQue := [\<lparr>cid = 0, connected = False, alivetime = 0\<rparr>]\<rparr>, [NotifyAll])
   \<and> ConnectionPool_ctor (Some ''initSize=1'') 0 (\<lambda>i. False)
     = Inr (pool0\<lparr>initSize := 1, connectionCnt := 1,
               connectionQue := [\<lparr>cid = 0, connected = False, alivetime = 0\<rparr>]\<rparr>, True, [])"
  by code_simp

text \<open>
  Claim C9 as amended. Every connection the producer or the constructor creates is
  counted, whatever its \<^verbatim>\<open>connect\<close> call returned: a producer iteration on an empty
  queue below \<^verbatim>\<open>maxSize\<close> adds one to the counter and enqueues the one connection
  with the result of \<^verbatim>\<open>connect\<close> recorded in it; after a constructor that loaded its
  configuration the queue holds exactly the connections created for
  \<open>i = 0, ..., initSize - 1\<close> (none when \<^verbatim>\<open>initSize\<close> is not positive), the
  \<open>i\<close>-th with the result of the \<open>i\<close>-th \<^verbatim>\<open>connect\<close> call, and the counter equals
  their number, for every sequence of connect results.
\<close>

theorem counter_ignores_connect_result:
  "(connectionQue p = [] \<and> connectionCnt p < maxSize p \<longrightarrow>
      (\<exists>p'. produceConnectionTask now a ok p = Some (p', [NotifyAll])
          \<and> connectionCnt p' = connectionCnt p + 1
          \<and> connectionQue p' = [\<lparr>cid = a, connected = ok, alivetime = now\<rparr>]))
   \<and> (ConnectionPool_ctor conf now oks = Inr (q, True, evs) \<longrightarrow>
        connectionCnt q = max 0 (initSize q)
        \<and> connectionQue q
            = map (\<lambda>j. \<lparr>cid = j, connected = oks j, alivetime = now\<rparr>) [0..<nat (initSize q)]
        \<and> int (length (connectionQue q)) = connectionCnt q
        \<and> map connected (connectionQue q) = map oks [0..<nat (connectionCnt q)])"
proof (intro conjI impI)
  assume "connectionQue p = [] \<and> connectionCnt p < maxSize p"
  then show "\<exists>p'. produceConnectionTask now a ok p = Some (p', [NotifyAll])
          \<and> connectionCnt p' = connectionCnt p + 1
          \<and> connectionQue p' = [\<lparr>cid = a, connected = ok, alivetime = now\<rparr>]"
    by (simp add: produceConnectionTask_def push_new_def new_connection_def refreshAliveTime_def)
next
  assume c: "ConnectionPool_ctor conf now oks = Inr (q, True, evs)"
  then obtain p0 where l: "loadConfigFile conf pool0 = Inr (True, p0, evs)"
    and q: "q = ctor_loop now oks 0 p0"
    unfolding ConnectionPool_ctor_def by (auto split: sum.splits if_splits)
  from loadConfigFile_frame [OF l]
  have z: "connectionCnt p0 = 0" and e: "connectionQue p0 = []" by (simp_all add: pool0_def)
  have i: "initSize q = initSize p0" using ctor_loop_config [of now oks 0 p0] q by simp
  show cnt: "connectionCnt q = max 0 (initSize q)"
    using ctor_loop_cnt [of now oks 0 p0] i q z by simp
  show que: "connectionQue q
            = map (\<lambda>j. \<lparr>cid = j, connected = oks j, alivetime = now\<rparr>) [0..<nat (initSize q)]"
    using ctor_loop_que [of 0 now oks p0] e i q by simp
  from que cnt show "int (length (connectionQue q)) = connectionCnt q" by simp
  have "nat (connectionCnt q) = nat (initSize q)" using cnt by simp
  with que show "map connected (connectionQue q) = map oks [0..<nat (connectionCnt q)]"
    by (simp add: comp_def)
qed

theorem counter_ignores_connect_result_witness:
  "(\<exists>p'. produceConnectionTask 5 2 False (pool0\<lparr>maxSize := 4, connectionCnt := 2\<rparr>)
            = Some (p', [NotifyAll])
        \<and> connectionCnt p' = connectionCnt (pool0\<lparr>maxSize := 4, connectionCnt := 2\<rparr>) + 1
        \<and> connectionQue p' = [\<lparr>cid = 2, connected = False, alivetime = 5\<rparr>])
   \<and> (\<exists>q. ConnectionPool_ctor (Some cfgA) 0 (\<lambda>i. i = 1) = Inr (q, True, [])
        \<and> connectionCnt q = 2
        \<and> connectionQue q = [\<lparr>cid = 0, connected = False, alivetime = 0\<rparr>,
                              \<lparr>cid = 1, connected = True, alivetime = 0\<rparr>]
        \<and> map connected (connectionQue q) = [False, True])"
proof -
  let ?p = "pool0\<lparr>maxSize := 4, connectionCnt := 2\<rparr>"
  let ?q = "pool0\<lparr>initSize := 2, maxSize := 4, maxIdleTime := 1, connectionTimeout := 100,
                connectionQue := [\<lparr>cid = 0, connected = False, alivetime = 0\<rparr>,
                                  \<lparr>cid = 1, connected = True, alivetime = 0\<rparr>],
                connectionCnt := 2\<rparr>"
  have h: "connectionQue ?p = [] \<and> connectionCnt ?p < maxSize ?p" by (simp add: pool0_def)
  have c: "ConnectionPool_ctor (Some cfgA) 0 (\<lambda>i. i = 1) = Inr (?q, True, [])"
    by code_simp
  note t = counter_ignores_connect_result
             [where p = ?p and now = 5 and a = 2 and ok = False and conf = None
                and oks = "\<lambda>i. True" and q = ?q and evs = "[]", THEN conjunct1]
  note u = counter_ignores_connect_result
             [where p = ?p and a = 0 and ok = True and conf = "Some cfgA" and now = 0
                and oks = "\<lambda>i. i = 1" and q = ?q and evs = "[]", THEN conjunct2]
  from t h have 1: "\<exists>p'. produceConnectionTask 5 2 False ?p = Some (p', [NotifyAll])
        \<and> connectionCnt p' = connectionCnt ?p + 1
        \<and> connectionQue p' = [\<lparr>cid = 2, connected = False, alivetime = 5\<rparr>]" by blast
  from u c have 2: "connectionCnt ?q = max 0 (initSize ?q)"
    and 3: "map connected (connectionQue ?q) = map (\<lambda>i. i = 1) [0..<nat (connectionCnt ?q)]"
    by blast+
  from 2 have 4: "connectionCnt ?q = 2" by simp
  have 5: "map connected (connectionQue ?q) = [False, True]" by simp
  from 1 c 4 5 show ?thesis by auto
qed

section \<open>Loading the configuration\<close>

text \<open>
  Claim C10 says that no content of the configuration file makes loading throw. With
  the line \<^verbatim>\<open>port=abc\<close> the call of \<^verbatim>\<open>std::stoi\<close> throws \<^verbatim>\<open>std::invalid_argument\<close>,
  which leaves \<^verbatim>\<open>loadConfigFile\<close> and the constructor uncaught; a numeric value too
  large for \<^verbatim>\<open>int\<close> throws \<^verbatim>\<open>std::out_of_range\<close> in the same way.
\<close>

theorem config_nonnumeric_value_throws:
  "loadConfigFile (Some ''port=abc'') pool0 = Inl InvalidArgument
   \<and> ConnectionPool_ctor (Some ''port=abc'') 0 (\<lambda>i. True) = Inl InvalidArgument
   \<and> loadConfigFile (Some ''maxSize=99999999999'') pool0 = Inl OutOfRange"
  by code_simp

section \<open>The reaper and an empty queue\<close>

text \<open>
  Claim C8 says that the reaper never reads the front of an empty queue. In the spec's
  scenario (\<^verbatim>\<open>initSize=2\<close>, \<^verbatim>\<open>maxSize=4\<close>) two handles are taken, the producer creates
  a third connection, a third handle is taken and a second passes: the queue is empty,
  the counter is 3 and \<^verbatim>\<open>initSize\<close> is 2, and the scan of the reaper calls
  \<^verbatim>\<open>front()\<close> on the empty queue.
\<close>

theorem reaper_reads_front_of_empty_queue:
  "map_option (\<lambda>s. (connectionQue (pl s), connectionCnt (pl s), initSize (pl s),
                     snd (snd (scannerConnectionTask (clock s) (pl s)))))
     (started (Some cfgA) 0 (\<lambda>i. True) [Acquire, Acquire, Produce True, Acquire, Tick 1000])
   = Some ([], 3, 2, Some FrontOfEmptyQueue)"
  by code_simp

section \<open>Waiting for a connection\<close>

text \<open>
  Claim C2 says that a call of \<^verbatim>\<open>getConnection\<close> on an exhausted pool returns null
  within the configured timeout, each wait using the remaining budget. Every wait of the
  source is given the whole timeout again: with a timeout of 100 milliseconds, an
  exhausted pool (empty queue, counter at \<^verbatim>\<open>maxSize\<close>, nothing returned) and three
  wake-ups after 99 milliseconds each, the call returns null after 397 milliseconds, and
  as long as such wake-ups keep coming it does not return.
\<close>

theorem acquire_wait_exceeds_timeout:
  "map_option (\<lambda>(h, p, evs, t). (h, evs, t))
     (getConnection (pool0\<lparr>maxSize := 4, connectionCnt := 4, connectionTimeout := 100\<rparr>)
        [\<lparr>notified = Some 99, others = (\<lambda>p. p)\<rparr>,
         \<lparr>notified = Some 99, others = (\<lambda>p. p)\<rparr>,
         \<lparr>notified = Some 99, others = (\<lambda>p. p)\<rparr>,
         \<lparr>notified = None, others = (\<lambda>p. p)\<rparr>])
   = Some (None, [Log AcquireTimedOut], 397)
   \<and> getConnection (pool0\<lparr>maxSize := 4, connectionCnt := 4, connectionTimeout := 100\<rparr>)
        [\<lparr>notified = Some 99, others = (\<lambda>p. p)\<rparr>,
         \<lparr>notified = Some 99, others = (\<lambda>p. p)\<rparr>,
         \<lparr>notified = Some 99, others = (\<lambda>p. p)\<rparr>] = None"
  by code_simp

section \<open>Returning a connection\<close>

text \<open>
  Claim C7 says that the release callback broadcasts on the condition variable after
  pushing the connection back. The deleter refreshes the timestamp and pushes the
  connection, and produces no event: there is no broadcast.
\<close>

theorem release_does_not_broadcast:
  "deleter 50 \<lparr>cid = 0, connected = True, alivetime = 0\<rparr>
     (pool0\<lparr>maxSize := 1, connectionCnt := 1\<rparr>)
   = (pool0\<lparr>maxSize := 1, connectionCnt := 1,
         connectionQue := [\<lparr>cid = 0, connected = True, alivetime = 50\<rparr>]\<rparr>, [])"
  by code_simp

section \<open>The scan of the reaper\<close>

lemma scan_loop_props:
  "scan_loop now isz mit q cnt = (q', cnt', ds, f) \<Longrightarrow>
     q = ds @ q' \<and> cnt' = cnt - int (length ds)
     \<and> (\<forall>c\<in>set ds. mit * 1000 \<le> getAliveeTime now c)
     \<and> (isz \<le> cnt \<longrightarrow> isz \<le> cnt')
     \<and> (ds \<noteq> [] \<longrightarrow> isz \<le> cnt')
     \<and> (f = None \<and> isz < cnt' \<longrightarrow>
           (\<exists>c r. q' = c # r \<and> getAliveeTime now c < mit * 1000))"
proof (induction q arbitrary: cnt q' cnt' ds f)
  case Nil
  then show ?case by (auto split: if_splits)
next
  case (Cons c q)
  show ?case
  proof (cases "cnt > isz")
    case False
    with Cons.prems show ?thesis by auto
  next
    case above: True
    show ?thesis
    proof (cases "idle_threshold mit")
      case None
      with above Cons.prems show ?thesis by auto
    next
      case (Some thr)
      then have thr: "thr = mit * 1000"
        by (auto simp: idle_threshold_def split: if_splits)
      show ?thesis
      proof (cases "getAliveeTime now c \<ge> thr")
        case False
        with above Some thr Cons.prems show ?thesis by auto
      next
        case stale: True
        obtain q1 cnt1 ds1 f1 where r: "scan_loop now isz mit q (cnt - 1) = (q1, cnt1, ds1, f1)"
          by (cases "scan_loop now isz mit q (cnt - 1)") auto
        with above Some stale Cons.prems
        have e: "q' = q1" "cnt' = cnt1" "ds = c # ds1" "f = f1" by auto
        from Cons.IH [OF r] above stale thr e show ?thesis by auto
      qed
    qed
  qed
qed

lemma scan_loop_faults:
  "scan_loop now isz mit q cnt = (q', cnt', ds, f) \<Longrightarrow>
     (f = Some FrontOfEmptyQueue \<longrightarrow> q' = [] \<and> isz < cnt')
     \<and> (f = Some SignedOverflow \<longrightarrow> idle_threshold mit = None \<and> ds = [] \<and> isz < cnt')
     \<and> (idle_threshold mit \<noteq> None \<and> cnt - isz \<le> int (length q) \<longrightarrow> f = None)"
proof (induction q arbitrary: cnt q' cnt' ds f)
  case Nil
  then show ?case by (auto split: if_splits)
next
  case (Cons c q)
  show ?case
  proof (cases "cnt > isz")
    case False
    with Cons.prems show ?thesis by auto
  next
    case above: True
    show ?thesis
    proof (cases "idle_threshold mit")
      case None
      with above Cons.prems show ?thesis by auto
    next
      case (Some thr)
      show ?thesis
      proof (cases "getAliveeTime now c \<ge> thr")
        case False
        with above Some Cons.prems show ?thesis by auto
      next
        case stale: True
        obtain q1 cnt1 ds1 f1 where r: "scan_loop now isz mit q (cnt - 1) = (q1, cnt1, ds1, f1)"
          by (cases "scan_loop now isz mit q (cnt - 1)") auto
        with above Some stale Cons.prems
        have e: "q' = q1" "cnt' = cnt1" "ds = c # ds1" "f = f1" by auto
        from Cons.IH [OF r] Some e show ?thesis by auto
      qed
    qed
  qed
qed

text \<open>
  Claim C3 speaks of every scan. A scan whose counter is above \<^verbatim>\<open>initSize\<close> while
  the queue is empty does not stop at a front entry: it calls \<^verbatim>\<open>front()\<close> on the empty
  queue (here after the only connection of a pool with \<^verbatim>\<open>initSize=0\<close> was leased).
  With an idle threshold of thirty days the product \<^verbatim>\<open>_maxIdleTime * 1000\<close> is
  2592000000, which is not an \<^verbatim>\<open>int\<close>: the comparison that decides whether the front
  entry, idle for one second, is stale is undefined.
\<close>

theorem reaper_scan_counterexample:
  "map_option (\<lambda>s. (connectionQue (pl s), connectionCnt (pl s), initSize (pl s),
                     scannerConnectionTask (clock s) (pl s)
                       = (pl s, [], Some FrontOfEmptyQueue)))
     (started (Some cfgB) 0 (\<lambda>i. True) [Produce True, Acquire, Tick 1000])
     = Some ([], 1, 0, True)
   \<and> getAliveeTime 2592000000 \<lparr>cid = 0, connected = True, alivetime = 2591999000\<rparr> = 1000
   \<and> maxIdleTime pool_month * 1000 = 2592000000
   \<and> INT_MAX < maxIdleTime pool_month * 1000
   \<and> scannerConnectionTask 2592000000 pool_month = (pool_month, [], Some SignedOverflow)"
  by code_simp

text \<open>
  Claim C3 as amended. A scan of the reaper deletes a prefix of the idle queue and
  nothing else: it leaves the rest of the queue in place, lowers the counter by the number
  of deleted connections and changes no other member. Every deleted connection had been
  idle for at least \<^verbatim>\<open>maxIdleTime\<close> times 1000 milliseconds. A counter that was at least
  \<^verbatim>\<open>initSize\<close> stays so, and after any deletion it is at least \<^verbatim>\<open>initSize\<close>. A scan
  runs into no undefined operation when \<^verbatim>\<open>maxIdleTime\<close> times 1000 is an \<^verbatim>\<open>int\<close>
  and the counter exceeds \<^verbatim>\<open>initSize\<close> by no more than the length of the queue; a scan
  that runs into none and ends with the counter still above \<^verbatim>\<open>initSize\<close> stopped at a
  front entry that is not yet stale, whatever lies behind it. The two undefined
  operations are the read of the front of an empty queue with the counter above
  \<^verbatim>\<open>initSize\<close>, and the product that is not an \<^verbatim>\<open>int\<close>, before which nothing is
  deleted.
\<close>

theorem reaper_scan:
  "scannerConnectionTask now p = (p', evs, f) \<Longrightarrow>
     p' = p\<lparr>connectionQue := drop (length evs) (connectionQue p),
            connectionCnt := connectionCnt p - int (length evs)\<rparr>
     \<and> length evs \<le> length (connectionQue p)
     \<and> evs = map Delete (take (length evs) (connectionQue p))
     \<and> (\<forall>c\<in>set (take (length evs) (connectionQue p)).
           maxIdleTime p * 1000 \<le> getAliveeTime now c)
     \<and> (initSize p \<le> connectionCnt p \<longrightarrow> initSize p \<le> connectionCnt p')
     \<and> (evs \<noteq> [] \<longrightarrow> initSize p \<le> connectionCnt p')
     \<and> (f = None \<and> initSize p < connectionCnt p' \<longrightarrow>
           (\<exists>c r. connectionQue p' = c # r
                  \<and> getAliveeTime now c < maxIdleTime p * 1000))
     \<and> (idle_threshold (maxIdleTime p) \<noteq> None
          \<and> connectionCnt p - initSize p \<le> int (length (connectionQue p)) \<longrightarrow> f = None)
     \<and> (f = Some FrontOfEmptyQueue \<longrightarrow>
           connectionQue p' = [] \<and> initSize p < connectionCnt p')
     \<and> (f = Some SignedOverflow \<longrightarrow>
           idle_threshold (maxIdleTime p) = None \<and> evs = [])"
proof -
  assume a: "scannerConnectionTask now p = (p', evs, f)"
  obtain q1 cnt1 ds where
    r: "scan_loop now (initSize p) (maxIdleTime p) (connectionQue p) (connectionCnt p)
          = (q1, cnt1, ds, f)"
    and p': "p' = p\<lparr>connectionQue := q1, connectionCnt := cnt1\<rparr>"
    and evs: "evs = map Delete ds"
    using a unfolding scannerConnectionTask_def by (auto split: prod.splits)
  note props = scan_loop_props [OF r]
  from props have q: "connectionQue p = ds @ q1" by blast
  have len: "length evs = length ds" using evs by simp
  have tk: "take (length evs) (connectionQue p) = ds" using q len by simp
  have dr: "drop (length evs) (connectionQue p) = q1" using q len by simp
  have c1: "cnt1 = connectionCnt p - int (length evs)" using props len by simp
  have 1: "p' = p\<lparr>connectionQue := drop (length evs) (connectionQue p),
            connectionCnt := connectionCnt p - int (length evs)\<rparr>"
    using p' dr c1 by simp
  have 2: "length evs \<le> length (connectionQue p)" using q len by simp
  have 3: "evs = map Delete (take (length evs) (connectionQue p))" using evs tk by simp
  have 4: "\<forall>c\<in>set (take (length evs) (connectionQue p)).
           maxIdleTime p * 1000 \<le> getAliveeTime now c" using props tk by simp
  have cq: "connectionCnt p' = cnt1" "connectionQue p' = q1" using p' by simp_all
  have ds: "evs \<noteq> [] \<longrightarrow> ds \<noteq> []" using evs by simp
  have 5: "initSize p \<le> connectionCnt p \<longrightarrow> initSize p \<le> connectionCnt p'"
    unfolding cq using props by blast
  have 6: "evs \<noteq> [] \<longrightarrow> initSize p \<le> connectionCnt p'"
    unfolding cq using props ds by blast
  have 7: "f = None \<and> initSize p < connectionCnt p' \<longrightarrow>
           (\<exists>c r. connectionQue p' = c # r
                  \<and> getAliveeTime now c < maxIdleTime p * 1000)"
    unfolding cq using props by blast
  note faults = scan_loop_faults [OF r]
  have 8: "idle_threshold (maxIdleTime p) \<noteq> None
          \<and> connectionCnt p - initSize p \<le> int (length (connectionQue p)) \<longrightarrow> f = None"
    using faults by blast
  have 9: "f = Some FrontOfEmptyQueue \<longrightarrow>
           connectionQue p' = [] \<and> initSize p < connectionCnt p'"
    unfolding cq using faults by blast
  have 10: "f = Some SignedOverflow \<longrightarrow>
           idle_threshold (maxIdleTime p) = None \<and> evs = []"
    using faults evs by simp
  from 1 2 3 4 5 6 7 8 9 10 show ?thesis by blast
qed

theorem reaper_scan_witness:
  "scannerConnectionTask 5000 pool3
     = (pool3\<lparr>connectionQue := [\<lparr>cid = 1, connected = True, alivetime = 4500\<rparr>,
                                 \<lparr>cid = 2, connected = True, alivetime = 0\<rparr>],
              connectionCnt := 2\<rparr>,
        [Delete \<lparr>cid = 0, connected = True, alivetime = 0\<rparr>], None)
   \<and> initSize pool3 \<le> 2
   \<and> maxIdleTime pool3 * 1000 \<le> getAliveeTime 5000 \<lparr>cid = 0, connected = True, alivetime = 0\<rparr>
   \<and> getAliveeTime 5000 \<lparr>cid = 1, connected = True, alivetime = 4500\<rparr> < maxIdleTime pool3 * 1000
   \<and> idle_threshold (maxIdleTime pool3) = Some 1000
   \<and> connectionCnt pool3 - initSize pool3 \<le> int (length (connectionQue pool3))"
proof -
  let ?p' = "pool3\<lparr>connectionQue := [\<lparr>cid = 1, connected = True, alivetime = 4500\<rparr>,
                                 \<lparr>cid = 2, connected = True, alivetime = 0\<rparr>],
              connectionCnt := 2\<rparr>"
  let ?evs = "[Delete \<lparr>cid = 0, connected = True, alivetime = 0\<rparr>]"
  have e: "scannerConnectionTask 5000 pool3 = (?p', ?evs, None)"
    by code_simp
  note t = reaper_scan [OF e]
  have ne: "?evs \<noteq> []" by simp
  from t ne have a: "initSize pool3 \<le> connectionCnt ?p'" by blast
  from t have b: "\<forall>c\<in>set (take (length ?evs) (connectionQue pool3)).
           maxIdleTime pool3 * 1000 \<le> getAliveeTime 5000 c" by blast
  have lt: "initSize pool3 < connectionCnt ?p'" by (simp add: pool3_def pool0_def)
  from t lt have c: "\<exists>c r. connectionQue ?p' = c # r
                  \<and> getAliveeTime 5000 c < maxIdleTime pool3 * 1000" by blast
  have d: "idle_threshold (maxIdleTime pool3) = Some 1000" by code_simp
  have g: "connectionCnt pool3 - initSize pool3 \<le> int (length (connectionQue pool3))"
    by (simp add: pool3_def pool0_def)
  from a b c e d g show ?thesis by (simp add: pool3_def)
qed

section \<open>An acquisition that times out\<close>






section \<open>The bounds of the live connection counter\<close>

lemma step_config:
  "step a s = Some s' \<Longrightarrow>
     initSize (pl s') = initSize (pl s) \<and> maxSize (pl s') = maxSize (pl s)"
proof (cases a)
  case (Produce ok)
  assume "step a s = Some s'"
  with Produce show ?thesis
    by (auto simp: produceConnectionTask_def push_new_def split: option.splits if_splits)
next
  case Acquire
  assume "step a s = Some s'"
  with Acquire show ?thesis
    by (auto simp: getConnection_def split: option.splits if_splits list.splits waited.splits)
next
  case AcquireTimeout
  assume "step a s = Some s'"
  with AcquireTimeout show ?thesis
    by (auto simp: getConnection_def quiet_def
          split: option.splits if_splits list.splits waited.splits prod.splits)
next
  case (Release k)
  assume "step a s = Some s'"
  with Release show ?thesis
    by (auto simp: deleter_def split: if_splits)
next
  case Scan
  assume "step a s = Some s'"
  with Scan show ?thesis
    by (auto simp: scannerConnectionTask_def split: prod.splits option.splits)
next
  case (Tick d)
  assume "step a s = Some s'"
  with Tick show ?thesis by auto
qed

lemma step_cnt:
  "step a s = Some s' \<Longrightarrow>
     (connectionCnt (pl s) < connectionCnt (pl s') \<longrightarrow>
        (\<exists>ok. a = Produce ok) \<and> connectionCnt (pl s) < maxSize (pl s)
        \<and> connectionCnt (pl s') = connectionCnt (pl s) + 1)
   \<and> (connectionCnt (pl s') < connectionCnt (pl s) \<longrightarrow>
        a = Scan \<and> initSize (pl s) \<le> connectionCnt (pl s'))"
proof (cases a)
  case (Produce ok)
  assume "step a s = Some s'"
  with Produce show ?thesis
    by (auto simp: produceConnectionTask_def push_new_def split: option.splits if_splits)
next
  case Acquire
  assume "step a s = Some s'"
  with Acquire show ?thesis
    by (auto simp: getConnection_def split: option.splits if_splits list.splits waited.splits)
next
  case AcquireTimeout
  assume "step a s = Some s'"
  with AcquireTimeout show ?thesis
    by (auto simp: getConnection_def quiet_def
          split: option.splits if_splits list.splits waited.splits prod.splits)
next
  case (Release k)
  assume "step a s = Some s'"
  with Release show ?thesis
    by (auto simp: deleter_def split: if_splits)
next
  case Scan
  assume st: "step a s = Some s'"
  obtain q1 cnt1 ds f where
    r: "scan_loop (clock s) (initSize (pl s)) (maxIdleTime (pl s)) (connectionQue (pl s))
          (connectionCnt (pl s)) = (q1, cnt1, ds, f)"
    by (cases "scan_loop (clock s) (initSize (pl s)) (maxIdleTime (pl s))
                 (connectionQue (pl s)) (connectionCnt (pl s))") auto
  from st Scan r have c: "connectionCnt (pl s') = cnt1"
    by (auto simp: scannerConnectionTask_def split: option.splits)
  from scan_loop_props [OF r]
  have "cnt1 = connectionCnt (pl s) - int (length ds)"
    and "ds \<noteq> [] \<longrightarrow> initSize (pl s) \<le> cnt1" by blast+
  with c Scan show ?thesis by auto
next
  case (Tick d)
  assume "step a s = Some s'"
  with Tick show ?thesis by auto
qed

lemma run_config:
  "run acts s0 = Some s \<Longrightarrow>
     initSize (pl s) = initSize (pl s0) \<and> maxSize (pl s) = maxSize (pl s0)"
proof (induction acts arbitrary: s0)
  case Nil
  then show ?case by simp
next
  case (Cons a acts)
  from Cons.prems obtain s1 where s1: "step a s0 = Some s1" and r: "run acts s1 = Some s"
    by (auto split: option.splits)
  from Cons.IH [OF r] step_config [OF s1] show ?case by simp
qed

lemma run_bounds:
  "run acts s0 = Some s \<Longrightarrow>
   initSize (pl s0) \<le> connectionCnt (pl s0) \<Longrightarrow> connectionCnt (pl s0) \<le> maxSize (pl s0) \<Longrightarrow>
     initSize (pl s) = initSize (pl s0) \<and> maxSize (pl s) = maxSize (pl s0)
     \<and> initSize (pl s) \<le> connectionCnt (pl s) \<and> connectionCnt (pl s) \<le> maxSize (pl s)"
proof (induction acts arbitrary: s0)
  case Nil
  then show ?case by simp
next
  case (Cons a acts)
  from Cons.prems(1) obtain s1 where s1: "step a s0 = Some s1" and r: "run acts s1 = Some s"
    by (auto split: option.splits)
  note cfg = step_config [OF s1]
  note cnt = step_cnt [OF s1]
  have lo: "initSize (pl s1) \<le> connectionCnt (pl s1)"
    using cfg cnt Cons.prems(2) by (cases "connectionCnt (pl s1) < connectionCnt (pl s0)") auto
  have hi: "connectionCnt (pl s1) \<le> maxSize (pl s1)"
    using cfg cnt Cons.prems(3) by (cases "connectionCnt (pl s0) < connectionCnt (pl s1)") auto
  from Cons.IH [OF r lo hi] cfg show ?case by simp
qed

lemma boot_cnt:
  "boot conf now oks = Some s0 \<Longrightarrow>
     connectionCnt (pl s0) = max 0 (initSize (pl s0)) \<and> leased s0 = [] \<and> clock s0 = now
     \<and> (\<forall>c\<in>set (connectionQue (pl s0)). alivetime c \<le> now)"
proof -
  assume "boot conf now oks = Some s0"
  then obtain p evs where c: "ConnectionPool_ctor conf now oks = Inr (p, True, evs)"
    and s0: "s0 = \<lparr>pl = p, leased = [], clock = now, next_addr = nat (connectionCnt p)\<rparr>"
    unfolding boot_def by (auto split: sum.splits bool.splits)
  from c obtain p0 where l: "loadConfigFile conf pool0 = Inr (True, p0, evs)"
    and p: "p = ctor_loop now oks 0 p0"
    unfolding ConnectionPool_ctor_def by (auto split: sum.splits if_splits)
  from loadConfigFile_frame [OF l]
  have z: "connectionCnt p0 = 0" and e: "connectionQue p0 = []" by (simp_all add: pool0_def)
  from e have "\<forall>c\<in>set (connectionQue p0). alivetime c \<le> now" by simp
  from ctor_loop_alive [OF this, of oks 0]
  have al: "\<forall>c\<in>set (connectionQue p). alivetime c \<le> now" using p by simp
  have "connectionCnt p = max 0 (initSize p)"
    using ctor_loop_cnt [of now oks 0 p0] ctor_loop_config [of now oks 0 p0] p z by simp
  with al s0 show ?thesis by simp
qed

text \<open>
  Claim C1 says that in every state after initialisation the counter lies between
  \<^verbatim>\<open>initSize\<close> and \<^verbatim>\<open>maxSize\<close>. The constructor takes both numbers from the file as
  they are: with \<^verbatim>\<open>initSize=3\<close> and \<^verbatim>\<open>maxSize=1\<close> it creates three connections and
  the counter is 3, above \<^verbatim>\<open>maxSize\<close>; with \<^verbatim>\<open>initSize=-2\<close> and \<^verbatim>\<open>maxSize=-1\<close>
  it creates none and the counter is 0, above \<^verbatim>\<open>maxSize\<close> again.
\<close>

theorem live_count_bounds_counterexample:
  "map_option (\<lambda>s. (initSize (pl s), connectionCnt (pl s), maxSize (pl s)))
     (started (Some (''initSize=3'' @ nl @ ''maxSize=1'' @ nl)) 0 (\<lambda>i. True) [])
     = Some (3, 3, 1)
   \<and> map_option (\<lambda>s. (initSize (pl s), connectionCnt (pl s), maxSize (pl s)))
     (started (Some (''initSize=-2'' @ nl @ ''maxSize=-1'' @ nl)) 0 (\<lambda>i. True) [])
     = Some (- 2, 0, - 1)"
  by code_simp

text \<open>
  Claim C1 as amended. When the loaded configuration has \<^verbatim>\<open>initSize\<close> at most
  \<^verbatim>\<open>maxSize\<close> and \<^verbatim>\<open>maxSize\<close> not negative, every state the pool reaches after the
  constructor, by any sequence of producer iterations, acquisitions, timed-out
  acquisitions, releases, reaper scans and passing time, has its counter between
  \<^verbatim>\<open>initSize\<close> and \<^verbatim>\<open>maxSize\<close>. From such a state, a step that raises the counter is
  a producer iteration that found it strictly below \<^verbatim>\<open>maxSize\<close> and raises it by
  exactly one; a step that lowers it is a scan of the reaper, which leaves it at least
  \<^verbatim>\<open>initSize\<close>; acquisitions and releases do not change it.
\<close>

theorem live_count_bounds:
  "started conf now oks acts = Some s \<Longrightarrow>
   initSize (pl s) \<le> maxSize (pl s) \<Longrightarrow> 0 \<le> maxSize (pl s) \<Longrightarrow>
     initSize (pl s) \<le> connectionCnt (pl s) \<and> connectionCnt (pl s) \<le> maxSize (pl s)
     \<and> (\<forall>a s'. step a s = Some s' \<longrightarrow>
          (connectionCnt (pl s) < connectionCnt (pl s') \<longrightarrow>
             (\<exists>ok. a = Produce ok) \<and> connectionCnt (pl s) < maxSize (pl s)
             \<and> connectionCnt (pl s') = connectionCnt (pl s) + 1)
        \<and> (connectionCnt (pl s') < connectionCnt (pl s) \<longrightarrow>
             a = Scan \<and> initSize (pl s) \<le> connectionCnt (pl s')))"
proof -
  assume st: "started conf now oks acts = Some s"
    and le: "initSize (pl s) \<le> maxSize (pl s)" and nn: "0 \<le> maxSize (pl s)"
  from st obtain s0 where b: "boot conf now oks = Some s0" and r: "run acts s0 = Some s"
    unfolding started_def by (auto split: option.splits)
  from boot_cnt [OF b] have c0: "connectionCnt (pl s0) = max 0 (initSize (pl s0))" by blast
  have lo0: "initSize (pl s0) \<le> connectionCnt (pl s0)" using c0 by simp
  from run_config [OF r] le nn
  have le0: "initSize (pl s0) \<le> maxSize (pl s0)" and nn0: "0 \<le> maxSize (pl s0)" by simp_all
  have hi0: "connectionCnt (pl s0) \<le> maxSize (pl s0)" using c0 le0 nn0 by simp
  from run_bounds [OF r lo0 hi0]
  have inv: "initSize (pl s) \<le> connectionCnt (pl s) \<and> connectionCnt (pl s) \<le> maxSize (pl s)"
    by blast
  have steps: "\<forall>a s'. step a s = Some s' \<longrightarrow>
          (connectionCnt (pl s) < connectionCnt (pl s') \<longrightarrow>
             (\<exists>ok. a = Produce ok) \<and> connectionCnt (pl s) < maxSize (pl s)
             \<and> connectionCnt (pl s') = connectionCnt (pl s) + 1)
        \<and> (connectionCnt (pl s') < connectionCnt (pl s) \<longrightarrow>
             a = Scan \<and> initSize (pl s) \<le> connectionCnt (pl s'))"
    using step_cnt by blast
  from inv steps show ?thesis by blast
qed

theorem live_count_bounds_witness:
  "started (Some cfgA) 0 (\<lambda>i. True)
     [Acquire, Acquire, Produce True, Acquire, Tick 50, Release 1, Release 0, Release 0,
      Tick 1000, Scan] = Some sys_after
   \<and> initSize (pl sys_after) \<le> maxSize (pl sys_after) \<and> 0 \<le> maxSize (pl sys_after)
   \<and> initSize (pl sys_after) \<le> connectionCnt (pl sys_after)
   \<and> connectionCnt (pl sys_after) \<le> maxSize (pl sys_after)"
proof -
  have e: "started (Some cfgA) 0 (\<lambda>i. True)
     [Acquire, Acquire, Produce True, Acquire, Tick 50, Release 1, Release 0, Release 0,
      Tick 1000, Scan] = Some sys_after"
    by code_simp
  have le: "initSize (pl sys_after) \<le> maxSize (pl sys_after)"
    and nn: "0 \<le> maxSize (pl sys_after)"
    by (simp_all add: sys_after_def)
  from live_count_bounds [OF e le nn] e le nn show ?thesis by blast
qed

section \<open>Releasing a lease handle\<close>

lemma step_stamps:
  "step a s = Some s' \<Longrightarrow>
   \<forall>c\<in>set (connectionQue (pl s)) \<union> set (leased s). alivetime c \<le> clock s \<Longrightarrow>
   \<forall>c\<in>set (connectionQue (pl s')) \<union> set (leased s'). alivetime c \<le> clock s'"
proof (cases a)
  case (Produce ok)
  assume "step a s = Some s'"
    and "\<forall>c\<in>set (connectionQue (pl s)) \<union> set (leased s). alivetime c \<le> clock s"
  with Produce show ?thesis
    by (auto simp: produceConnectionTask_def push_new_def new_connection_def
          refreshAliveTime_def split: option.splits if_splits)
next
  case Acquire
  assume "step a s = Some s'"
    and "\<forall>c\<in>set (connectionQue (pl s)) \<union> set (leased s). alivetime c \<le> clock s"
  with Acquire show ?thesis
    by (auto simp: getConnection_def split: option.splits if_splits list.splits waited.splits)
next
  case AcquireTimeout
  assume "step a s = Some s'"
    and "\<forall>c\<in>set (connectionQue (pl s)) \<union> set (leased s). alivetime c \<le> clock s"
  with AcquireTimeout show ?thesis
    by (fastforce simp: getConnection_def quiet_def wait_for_def
          split: option.splits if_splits list.splits waited.splits prod.splits)
next
  case (Release k)
  assume st: "step a s = Some s'"
    and inv: "\<forall>c\<in>set (connectionQue (pl s)) \<union> set (leased s). alivetime c \<le> clock s"
  from st Release have k: "k < length (leased s)"
    and s': "s' = s\<lparr>pl := (pl s)\<lparr>connectionQue := connectionQue (pl s)
                        @ [refreshAliveTime (clock s) (leased s ! k)]\<rparr>,
                  leased := take k (leased s) @ drop (Suc k) (leased s)\<rparr>"
    by (auto simp: deleter_def split: if_splits)
  have "set (take k (leased s) @ drop (Suc k) (leased s)) \<subseteq> set (leased s)"
    using set_take_subset [of k "leased s"] set_drop_subset [of "Suc k" "leased s"] by auto
  with inv s' show ?thesis by (auto simp: refreshAliveTime_def)
next
  case Scan
  assume st: "step a s = Some s'"
    and inv: "\<forall>c\<in>set (connectionQue (pl s)) \<union> set (leased s). alivetime c \<le> clock s"
  obtain q1 cnt1 ds f where
    r: "scan_loop (clock s) (initSize (pl s)) (maxIdleTime (pl s)) (connectionQue (pl s))
          (connectionCnt (pl s)) = (q1, cnt1, ds, f)"
    by (cases "scan_loop (clock s) (initSize (pl s)) (maxIdleTime (pl s))
                 (connectionQue (pl s)) (connectionCnt (pl s))") auto
  from st Scan r have s': "connectionQue (pl s') = q1" "leased s' = leased s" "clock s' = clock s"
    by (auto simp: scannerConnectionTask_def split: option.splits)
  from scan_loop_props [OF r] have "connectionQue (pl s) = ds @ q1" by blast
  with inv s' show ?thesis by auto
next
  case (Tick d)
  assume st: "step a s = Some s'"
    and inv: "\<forall>c\<in>set (connectionQue (pl s)) \<union> set (leased s). alivetime c \<le> clock s"
  from st Tick have s': "s' = s\<lparr>clock := clock s + int d\<rparr>" by simp
  show ?thesis
  proof
    fix c
    assume "c \<in> set (connectionQue (pl s')) \<union> set (leased s')"
    with s' have "c \<in> set (connectionQue (pl s)) \<union> set (leased s)" by simp
    with inv have "alivetime c \<le> clock s" by blast
    then show "alivetime c \<le> clock s'" using s' by simp
  qed
qed

lemma run_stamps:
  "run acts s0 = Some s \<Longrightarrow>
   \<forall>c\<in>set (connectionQue (pl s0)) \<union> set (leased s0). alivetime c \<le> clock s0 \<Longrightarrow>
   \<forall>c\<in>set (connectionQue (pl s)) \<union> set (leased s). alivetime c \<le> clock s"
proof (induction acts arbitrary: s0)
  case Nil
  then show ?case by simp
next
  case (Cons a acts)
  from Cons.prems(1) obtain s1 where s1: "step a s0 = Some s1" and r: "run acts s1 = Some s"
    by (auto split: option.splits)
  from Cons.IH [OF r step_stamps [OF s1 Cons.prems(2)]] show ?case .
qed

text \<open>
  Claim C6. In every state the pool reaches after the constructor, dropping an
  outstanding handle runs the deleter, which sets the connection's timestamp to the
  current clock and appends the connection to the idle queue, and changes nothing else:
  the counter and every other member of the pool stay as they are, and there is no
  event, so the connection is not destroyed. The handle leaves the set of outstanding
  handles. The timestamp the connection carried while it was leased is not later than
  the clock, so the timestamp after the return is not earlier than the one at lease time.
\<close>

theorem release_returns_connection:
  "started conf now oks acts = Some s \<Longrightarrow> k < length (leased s) \<Longrightarrow>
     deleter (clock s) (leased s ! k) (pl s)
       = ((pl s)\<lparr>connectionQue :=
                    connectionQue (pl s) @ [(leased s ! k)\<lparr>alivetime := clock s\<rparr>]\<rparr>, [])
     \<and> alivetime (leased s ! k) \<le> clock s
     \<and> step (Release k) s
         = Some (s\<lparr>pl := (pl s)\<lparr>connectionQue :=
                      connectionQue (pl s) @ [(leased s ! k)\<lparr>alivetime := clock s\<rparr>]\<rparr>,
                   leased := take k (leased s) @ drop (Suc k) (leased s)\<rparr>)"
proof -
  assume st: "started conf now oks acts = Some s" and k: "k < length (leased s)"
  from st obtain s0 where b: "boot conf now oks = Some s0" and r: "run acts s0 = Some s"
    unfolding started_def by (auto split: option.splits)
  from boot_cnt [OF b]
  have "\<forall>c\<in>set (connectionQue (pl s0)) \<union> set (leased s0). alivetime c \<le> clock s0"
    by simp
  from run_stamps [OF r this] k have al: "alivetime (leased s ! k) \<le> clock s" by simp
  have d: "deleter (clock s) (leased s ! k) (pl s)
       = ((pl s)\<lparr>connectionQue :=
                    connectionQue (pl s) @ [(leased s ! k)\<lparr>alivetime := clock s\<rparr>]\<rparr>, [])"
    by (simp add: deleter_def refreshAliveTime_def)
  have "step (Release k) s
         = Some (s\<lparr>pl := (pl s)\<lparr>connectionQue :=
                      connectionQue (pl s) @ [(leased s ! k)\<lparr>alivetime := clock s\<rparr>]\<rparr>,
                   leased := take k (leased s) @ drop (Suc k) (leased s)\<rparr>)"
    using k d by simp
  with d al show ?thesis by blast
qed

theorem release_returns_connection_witness:
  "started (Some cfgA) 0 (\<lambda>i. True) [Acquire, Tick 50] = Some sys_leased
   \<and> 0 < length (leased sys_leased)
   \<and> step (Release 0) sys_leased
       = Some (sys_leased\<lparr>pl := (pl sys_leased)\<lparr>connectionQue :=
                  [\<lparr>cid = 1, connected = True, alivetime = 0\<rparr>,
                   \<lparr>cid = 0, connected = True, alivetime = 50\<rparr>]\<rparr>,
                leased := []\<rparr>)"
proof -
  have e: "started (Some cfgA) 0 (\<lambda>i. True) [Acquire, Tick 50] = Some sys_leased"
    by code_simp
  have k: "0 < length (leased sys_leased)" by (simp add: sys_leased_def)
  from release_returns_connection [OF e k] e k show ?thesis
    by (simp add: sys_leased_def)
qed

end
